theory Spec2Isabelle
  imports Complex_Main
begin

section \<open>Python values used by the compression client\<close>

text \<open>
  The client under study is \<^verbatim>\<open>CompressionMCPClient\<close> of
  \<^verbatim>\<open>compression_mcp_client.py\<close>.  Its three operations work on Python strings,
  floats and lists of dictionaries.  Strings are modelled as \<^typ>\<open>string\<close>, read as
  sequences of code points below 256, so that \<^const>\<open>length\<close> is Python's \<^verbatim>\<open>len\<close>.
\<close>

datatype error = OverflowError | ValueError | ZeroDivisionError | KeyError

subsection \<open>Floats\<close>

text \<open>
  A Python float is a finite double, an infinity or a NaN.  A finite double is kept as the
  rational number it denotes.  Only two float computations of the source can raise:
  \<^verbatim>\<open>word_count * ratio\<close> (the conversion of an integer that is too large for a double)
  and \<^verbatim>\<open>int(...)\<close> of an infinity or a NaN.  A product whose exact value reaches
  \<open>2^1024 - 2^970\<close> rounds to an infinity in IEEE double arithmetic.  A finite product
  is kept exact: the source never reads \<^verbatim>\<open>target_words\<close>, so only whether its
  computation raises matters.
\<close>

datatype pyfloat = Finite rat | PosInf | NegInf | NaN

definition float_overflow_bound :: rat where
  "float_overflow_bound = 2 ^ 1024 - 2 ^ 970"

fun float_times :: "rat \<Rightarrow> pyfloat \<Rightarrow> pyfloat" where
  "float_times w (Finite r) =
     (if float_overflow_bound \<le> w * r then PosInf
      else if w * r \<le> - float_overflow_bound then NegInf
      else Finite (w * r))"
| "float_times w PosInf = (if w = 0 then NaN else if 0 < w then PosInf else NegInf)"
| "float_times w NegInf = (if w = 0 then NaN else if 0 < w then NegInf else PosInf)"
| "float_times w NaN = NaN"

definition int_times_float :: "nat \<Rightarrow> pyfloat \<Rightarrow> error + pyfloat" where
  "int_times_float n x =
     (if float_overflow_bound \<le> of_nat n then Inl OverflowError
      else Inr (float_times (of_nat n) x))"

definition truncate_rat :: "rat \<Rightarrow> int" where
  "truncate_rat q = (if 0 \<le> q then \<lfloor>q\<rfloor> else \<lceil>q\<rceil>)"

fun py_int :: "pyfloat \<Rightarrow> error + int" where
  "py_int (Finite r) = Inr (truncate_rat r)"
| "py_int PosInf = Inl OverflowError"
| "py_int NegInf = Inl OverflowError"
| "py_int NaN = Inl ValueError"

text \<open>
  Arithmetic on finite doubles rounds the exact result to the nearest double, ties to the even
  significand.  A positive rational \<open>x\<close> lies in one binade \<open>2^e \<le> x < 2^(e+1)\<close>; the
  doubles of that binade are the multiples of \<open>2^(e-52)\<close>.  \<open>bit_length\<close> is Python's
  \<^verbatim>\<open>int.bit_length\<close>.  The exponent range is not bounded here: the floats that
  \<^verbatim>\<open>get_compression_suggestions\<close> computes from sizes are 0 or at least 1, and they
  stay below \<open>2^1024\<close> for every conversation of fewer than \<open>10^307\<close> words.
\<close>

fun bit_length :: "nat \<Rightarrow> nat" where
  "bit_length n = (if n = 0 then 0 else Suc (bit_length (n div 2)))"

declare bit_length.simps [simp del]

definition pow2 :: "int \<Rightarrow> rat" where
  "pow2 k = (if 0 \<le> k then 2 ^ nat k else 1 / 2 ^ nat (- k))"

definition binade :: "rat \<Rightarrow> int" where
  "binade x =
     (if 1 \<le> x then int (bit_length (nat \<lfloor>x\<rfloor>)) - 1
      else - int (bit_length (nat (\<lceil>1 / x\<rceil> - 1))))"

definition round_half_even :: "rat \<Rightarrow> int" where
  "round_half_even q =
     (let f = \<lfloor>q\<rfloor>; d = q - of_int f
      in if d < 1 / 2 then f else if 1 / 2 < d then f + 1 else if even f then f else f + 1)"

definition round_double :: "rat \<Rightarrow> rat" where
  "round_double x =
     (if x = 0 then 0
      else (let u = pow2 (binade \<bar>x\<bar> - 52)
            in sgn x * of_int (round_half_even (\<bar>x\<bar> / u)) * u))"

subsection \<open>Strings\<close>

text \<open>\<^verbatim>\<open>str.isspace\<close> on the code points below 256.\<close>

definition is_space :: "char \<Rightarrow> bool" where
  "is_space c = ((of_char c :: nat) \<in> {9, 10, 11, 12, 13, 28, 29, 30, 31, 32, 133, 160})"

text \<open>
  \<^verbatim>\<open>text.split()\<close>: the maximal runs of non-whitespace characters, in order.  The
  first argument is the run being read, reversed.
\<close>

fun split_ws_from :: "string \<Rightarrow> string \<Rightarrow> string list" where
  "split_ws_from cur [] = (if cur = [] then [] else [rev cur])"
| "split_ws_from cur (c # cs) =
     (if is_space c then (if cur = [] then split_ws_from [] cs else rev cur # split_ws_from [] cs)
      else split_ws_from (c # cur) cs)"

definition split_ws :: "string \<Rightarrow> string list" where
  "split_ws s = split_ws_from [] s"

text \<open>
  \<^verbatim>\<open>text.split('. ')\<close>: the pieces between the occurrences of the two-character
  separator, scanned from the left; the empty string gives one empty piece.
\<close>

definition cons_first :: "char \<Rightarrow> string list \<Rightarrow> string list" where
  "cons_first c ps = (case ps of [] \<Rightarrow> [[c]] | p # qs \<Rightarrow> (c # p) # qs)"

fun split_sentences :: "string \<Rightarrow> string list" where
  "split_sentences [] = [[]]"
| "split_sentences [c] = [[c]]"
| "split_sentences (c # d # cs) =
     (if c = CHR ''.'' \<and> d = CHR '' '' then [] # split_sentences cs
      else cons_first c (split_sentences (d # cs)))"

text \<open>\<^verbatim>\<open>'. '.join(parts)\<close>.\<close>

fun join_sentences :: "string list \<Rightarrow> string" where
  "join_sentences [] = []"
| "join_sentences [p] = p"
| "join_sentences (p # q # ps) = p @ ''. '' @ join_sentences (q # ps)"

section \<open>The client\<close>

record client =
  connected :: bool
  mock_mode :: bool

definition new_client :: client where
  "new_client = \<lparr>connected = False, mock_mode = True\<rparr>"

text \<open>\<^verbatim>\<open>connect\<close> returns the updated client and the method's result.\<close>

definition connect :: "client \<Rightarrow> client \<times> bool" where
  "connect self = (self\<lparr>connected := True\<rparr>, True)"

subsection \<open>compress_text\<close>

record compression_result =
  compressed_text :: string
  original_length :: nat
  compressed_length :: nat
  compression_ratio :: rat
  timestamp :: string

text \<open>
  The argument \<open>now\<close> is what \<^verbatim>\<open>datetime.now().isoformat()\<close> returns during the call.
  Outside mock mode the method body is \<^verbatim>\<open>pass\<close> and the result is \<^verbatim>\<open>None\<close>.
  \<^verbatim>\<open>target_words\<close> is computed and never read; computing it can raise.  The quotient
  \<^verbatim>\<open>len(compressed) / len(text)\<close> is kept exact.
\<close>

definition compress_text ::
  "client \<Rightarrow> string \<Rightarrow> string \<Rightarrow> pyfloat \<Rightarrow> error + compression_result option" where
  "compress_text self now text ratio =
     (if mock_mode self then
        (let word_count = length (split_ws text) in
         case int_times_float word_count ratio of
           Inl e \<Rightarrow> Inl e
         | Inr product \<Rightarrow>
             (case py_int product of
                Inl e \<Rightarrow> Inl e
              | Inr target_words \<Rightarrow>
                  (let sentences = split_sentences text;
                       compressed =
                         join_sentences (take (max 1 (length sentences div 2)) sentences) @ ''.''
                   in if length text = 0 then Inl ZeroDivisionError
                      else Inr (Some \<lparr>compressed_text = compressed,
                                     original_length = length text,
                                     compressed_length = length compressed,
                                     compression_ratio =
                                       of_nat (length compressed) / of_nat (length text),
                                     timestamp = now\<rparr>))))
      else Inr None)"

subsection \<open>Messages\<close>

text \<open>
  A message is a dictionary from field names to text.  \<^verbatim>\<open>msg.get('content', '')\<close> reads
  the field \<^verbatim>\<open>content\<close> and gives the empty string when it is missing;
  \<^verbatim>\<open>msg['content']\<close> raises \<^verbatim>\<open>KeyError\<close> then.
\<close>

type_synonym message = "string \<rightharpoonup> string"

definition get_content :: "message \<Rightarrow> string" where
  "get_content msg = (case msg ''content'' of None \<Rightarrow> [] | Some v \<Rightarrow> v)"

definition index_content :: "message \<Rightarrow> error + string" where
  "index_content msg = (case msg ''content'' of None \<Rightarrow> Inl KeyError | Some v \<Rightarrow> Inr v)"

text \<open>\<^verbatim>\<open>enumerate(xs)\<close> and the slice \<^verbatim>\<open>xs[:-10]\<close>.\<close>

definition enumerate_from_zero :: "'a list \<Rightarrow> (nat \<times> 'a) list" where
  "enumerate_from_zero xs = zip [0..<length xs] xs"

definition drop_last_ten :: "'a list \<Rightarrow> 'a list" where
  "drop_last_ten xs = take (length xs - 10) xs"

subsection \<open>get_compression_suggestions\<close>

record suggestion =
  message_index :: nat
  reason :: string
  potential_savings :: rat

record suggestions_result =
  total_tokens :: int
  suggestions :: "suggestion list"
  estimated_savings :: rat
  gs_timestamp :: string

text \<open>
  The element of the generator on the first line of the method: the number of
  whitespace-separated words of the content, converted to a double and multiplied by the
  double that the literal \<^verbatim>\<open>1.3\<close> denotes.
\<close>

definition message_tokens :: "message \<Rightarrow> rat" where
  "message_tokens msg =
     round_double (round_double (of_nat (length (split_ws (get_content msg)))) * round_double (13 / 10))"

text \<open>
  \<^verbatim>\<open>sum\<close> adds the elements to \<open>0\<close> from left to right, each addition a double
  addition.
\<close>

definition py_sum :: "rat list \<Rightarrow> rat" where
  "py_sum xs = foldl (\<lambda>total x. round_double (total + x)) 0 xs"

text \<open>The \<^verbatim>\<open>for\<close> loop; the first argument is the list \<^verbatim>\<open>suggestions\<close> built so far.\<close>

fun suggestions_loop :: "suggestion list \<Rightarrow> (nat \<times> message) list \<Rightarrow> error + suggestion list" where
  "suggestions_loop acc [] = Inr acc"
| "suggestions_loop acc ((i, msg) # rest) =
     (if 500 < length (get_content msg) then
        (case index_content msg of
           Inl e \<Rightarrow> Inl e
         | Inr content \<Rightarrow>
             suggestions_loop
               (acc @ [\<lparr>message_index = i, reason = ''Long message'',
                        potential_savings =
                          round_double (round_double (of_nat (length content)) * (1 / 2))\<rparr>])
               rest)
      else suggestions_loop acc rest)"

definition get_compression_suggestions ::
  "client \<Rightarrow> string \<Rightarrow> message list \<Rightarrow> pyfloat \<Rightarrow> error + suggestions_result option" where
  "get_compression_suggestions self now conversation threshold =
     (if mock_mode self then
        (let total = py_sum (map message_tokens conversation) in
         case suggestions_loop [] (enumerate_from_zero (drop_last_ten conversation)) of
           Inl e \<Rightarrow> Inl e
         | Inr found \<Rightarrow>
             Inr (Some \<lparr>total_tokens = truncate_rat total,
                        suggestions = found,
                        estimated_savings = py_sum (map potential_savings found),
                        gs_timestamp = now\<rparr>))
      else Inr None)"

subsection \<open>compress_conversation\<close>

text \<open>\<^verbatim>\<open>str.lower\<close> on the code points below 256, and the substring test \<^verbatim>\<open>in\<close>.\<close>

definition char_lower :: "char \<Rightarrow> char" where
  "char_lower c =
     (let n = (of_char c :: nat)
      in if (65 \<le> n \<and> n \<le> 90) \<or> (192 \<le> n \<and> n \<le> 222 \<and> n \<noteq> 215) then char_of (n + 32) else c)"

definition str_lower :: "string \<Rightarrow> string" where
  "str_lower s = map char_lower s"

fun starts_with :: "string \<Rightarrow> string \<Rightarrow> bool" where
  "starts_with [] s = True"
| "starts_with (p # ps) [] = False"
| "starts_with (p # ps) (c # cs) = (p = c \<and> starts_with ps cs)"

fun substring_in :: "string \<Rightarrow> string \<Rightarrow> bool" where
  "substring_in sub [] = (sub = [])"
| "substring_in sub (c # cs) = (starts_with sub (c # cs) \<or> substring_in sub cs)"

text \<open>\<^verbatim>\<open>str(n)\<close> for a non-negative integer, used by the f-string of the summary.\<close>

definition digit_char :: "nat \<Rightarrow> char" where
  "digit_char d = char_of (48 + d)"

fun str_of_nat :: "nat \<Rightarrow> string" where
  "str_of_nat n = (if n < 10 then [digit_char n] else str_of_nat (n div 10) @ [digit_char (n mod 10)])"

declare str_of_nat.simps [simp del]

record conversation_summary =
  summary :: string
  key_points :: "string list"
  decisions :: "string list"
  message_count :: nat
  cc_compression_ratio :: rat
  cc_timestamp :: string

text \<open>
  The extraction loop; the first argument is the pair of the lists \<^verbatim>\<open>key_points\<close> and
  \<^verbatim>\<open>decisions\<close> built so far.  The list \<^verbatim>\<open>entities\<close> is never written or read.
\<close>

fun extract_loop :: "string list \<times> string list \<Rightarrow> message list \<Rightarrow> string list \<times> string list" where
  "extract_loop (kps, ds) [] = (kps, ds)"
| "extract_loop (kps, ds) (msg # rest) =
     (let content = get_content msg;
          ds' = (if substring_in ''decision'' (str_lower content)
                    \<or> substring_in ''decided'' (str_lower content)
                 then ds @ [take 100 content @ ''...''] else ds);
          kps' = (if list_ex (\<lambda>word. substring_in word (str_lower content))
                       [''implement'', ''build'', ''create'']
                  then kps @ [take 100 content @ ''...''] else kps)
      in extract_loop (kps', ds') rest)"

definition compress_conversation ::
  "client \<Rightarrow> string \<Rightarrow> message list \<Rightarrow> int \<Rightarrow> conversation_summary option" where
  "compress_conversation self now messages max_tokens =
     (if mock_mode self then
        (case extract_loop ([], []) messages of
           (kps, ds) \<Rightarrow>
             Some \<lparr>summary = ''Conversation with '' @ str_of_nat (length messages) @ '' messages'',
                   key_points = take 5 kps,
                   decisions = take 3 ds,
                   message_count = length messages,
                   cc_compression_ratio = 1 / 10,
                   cc_timestamp = now\<rparr>)
      else None)"

section \<open>Auxiliary definitions\<close>

text \<open>The value of the local variable \<^verbatim>\<open>compressed\<close> of \<^verbatim>\<open>compress_text\<close>.\<close>

definition compressed_of :: "string \<Rightarrow> string" where
  "compressed_of text =
     join_sentences (take (max 1 (length (split_sentences text) div 2)) (split_sentences text)) @ ''.''"


text \<open>
  The suggestion that the loop of \<^verbatim>\<open>get_compression_suggestions\<close> appends for an
  enumerated message, and the test that guards it.
\<close>

definition suggestion_for :: "nat \<times> message \<Rightarrow> suggestion" where
  "suggestion_for p =
     \<lparr>message_index = fst p, reason = ''Long message'',
      potential_savings =
        round_double (round_double (of_nat (length (get_content (snd p)))) * (1 / 2))\<rparr>"

definition long_entry :: "nat \<times> message \<Rightarrow> bool" where
  "long_entry p = (500 < length (get_content (snd p)))"

text \<open>The list \<^verbatim>\<open>suggestions\<close> that the loop builds for a conversation.\<close>

definition found_in :: "message list \<Rightarrow> suggestion list" where
  "found_in conversation =
     map suggestion_for (filter long_entry (enumerate_from_zero (drop_last_ten conversation)))"

text \<open>A message with the two fields a caller of the client writes.\<close>

definition mk_message :: "string \<Rightarrow> string \<Rightarrow> message" where
  "mk_message role content = [''role'' \<mapsto> role, ''content'' \<mapsto> content]"

section \<open>What the specification says\<close>

text \<open>
  The specification's Token Estimator: the whitespace-delimited word count scaled by 1.3,
  as an integer.
\<close>

definition spec_token_estimate :: "string \<Rightarrow> int" where
  "spec_token_estimate s = truncate_rat (of_nat (length (split_ws s)) * (13 / 10))"

text \<open>
  The specification's achieved ratio of a conversation summary: the estimated size of the
  summary (its text, key points and decisions) divided by the estimated size of the
  original messages.
\<close>

definition spec_summary_tokens :: "conversation_summary \<Rightarrow> int" where
  "spec_summary_tokens s =
     spec_token_estimate (summary s)
     + sum_list (map spec_token_estimate (key_points s))
     + sum_list (map spec_token_estimate (decisions s))"

definition spec_achieved_ratio :: "conversation_summary \<Rightarrow> message list \<Rightarrow> rat" where
  "spec_achieved_ratio s messages =
     of_int (spec_summary_tokens s)
     / of_int (sum_list (map (\<lambda>msg. spec_token_estimate (get_content msg)) messages))"

text \<open>
  The specification's size cutoff of the Suggestion Analyzer: 500 characters scaled by the
  threshold.
\<close>

definition spec_size_cutoff :: "rat \<Rightarrow> rat" where
  "spec_size_cutoff threshold = 500 * threshold"

section \<open>The mode of the client\<close>

text \<open>
  A new client is in mock mode and \<^verbatim>\<open>connect\<close> keeps the mode; nothing in the class
  leaves it.  The properties below are about clients in mock mode.
\<close>

lemma new_client_mock_mode: "mock_mode new_client"
  by (simp add: new_client_def)

lemma connect_keeps_mode: "mock_mode (fst (connect self)) = mock_mode self"
  by (simp add: connect_def)

section \<open>Sentence splitting and joining\<close>

lemma split_sentences_not_Nil: "split_sentences s \<noteq> []"
  by (induction s rule: split_sentences.induct) (auto simp: cons_first_def split: list.splits)

lemma join_cons_first: "ps \<noteq> [] \<Longrightarrow> join_sentences (cons_first c ps) = c # join_sentences ps"
  by (cases ps rule: join_sentences.cases) (auto simp: cons_first_def)

lemma join_split_sentences: "join_sentences (split_sentences s) = s"
proof (induction s rule: split_sentences.induct)
  case (3 c d cs)
  show ?case
  proof (cases "c = CHR ''.'' \<and> d = CHR '' ''")
    case True
    obtain p ps where "split_sentences cs = p # ps"
      using split_sentences_not_Nil [of cs] by (cases "split_sentences cs") auto
    with True 3 show ?thesis by auto
  next
    case False
    then have "split_sentences (c # d # cs) = cons_first c (split_sentences (d # cs))" by auto
    with False 3 show ?thesis by (simp add: join_cons_first split_sentences_not_Nil)
  qed
qed auto

lemma join_sentences_append:
  "xs \<noteq> [] \<Longrightarrow> ys \<noteq> [] \<Longrightarrow>
   join_sentences (xs @ ys) = join_sentences xs @ ''. '' @ join_sentences ys"
proof (induction xs rule: join_sentences.induct)
  case (2 p)
  then show ?case by (cases ys) auto
qed auto

lemma length_cons_first: "ps \<noteq> [] \<Longrightarrow> length (cons_first c ps) = length ps"
  by (cases ps) (auto simp: cons_first_def)

lemma split_sentences_single:
  "(length (split_sentences s) = 1) = (\<not> substring_in ''. '' s)"
proof (induction s rule: split_sentences.induct)
  case (3 c d cs)
  show ?case
  proof (cases "c = CHR ''.'' \<and> d = CHR '' ''")
    case True
    then show ?thesis using split_sentences_not_Nil [of cs] by auto
  next
    case False
    then have eq: "split_sentences (c # d # cs) = cons_first c (split_sentences (d # cs))"
      by auto
    have sub: "substring_in ''. '' (c # d # cs) = substring_in ''. '' (d # cs)"
      using False by auto
    have "(length (split_sentences (d # cs)) = 1) = (\<not> substring_in ''. '' (d # cs))"
      using 3(2) False by blast
    then show ?thesis
      unfolding eq sub by (simp only: length_cons_first [OF split_sentences_not_Nil])
  qed
qed auto

lemma length_split_ws_from:
  "length (split_ws_from cur s) \<le> (if cur = [] then length s else Suc (length s))"
proof (induction s arbitrary: cur)
  case Nil
  show ?case by simp
next
  case (Cons a s)
  have a: "length (split_ws_from [] s) \<le> length s"
    using Cons.IH [of "[]"] by simp
  have b: "length (split_ws_from (a # x) s) \<le> Suc (length s)" for x
    using Cons.IH [of "a # x"] by simp
  show ?case using a b [of cur] b [of "[]"] by auto
qed

lemma length_split_ws: "length (split_ws s) \<le> length s"
  using length_split_ws_from [of "[]" s] by (simp add: split_ws_def)

lemma compressed_no_separator:
  assumes "\<not> substring_in ''. '' text"
  shows "join_sentences (take (max 1 (length (split_sentences text) div 2)) (split_sentences text)) = text"
proof -
  have "length (split_sentences text) = 1" using assms split_sentences_single by blast
  then have "take (max 1 (length (split_sentences text) div 2)) (split_sentences text) = split_sentences text"
    by simp
  then show ?thesis by (simp add: join_split_sentences)
qed

lemma compressed_with_separator:
  assumes "substring_in ''. '' text"
  shows "length (join_sentences (take (max 1 (length (split_sentences text) div 2)) (split_sentences text))) + 2 \<le> length text"
proof -
  let ?ss = "split_sentences text"
  let ?k = "max 1 (length ?ss div 2)"
  have "length ?ss \<noteq> 1" using assms split_sentences_single by blast
  moreover have "?ss \<noteq> []" by (rule split_sentences_not_Nil)
  ultimately have n: "2 \<le> length ?ss" by (cases ?ss rule: join_sentences.cases) auto
  then have k: "?k < length ?ss" "0 < ?k" by auto
  have t: "take ?k ?ss \<noteq> []" using k n by auto
  have d: "drop ?k ?ss \<noteq> []" using k by auto
  have "text = join_sentences (take ?k ?ss @ drop ?k ?ss)"
    by (simp add: join_split_sentences)
  also have "\<dots> = join_sentences (take ?k ?ss) @ ''. '' @ join_sentences (drop ?k ?ss)"
    by (rule join_sentences_append [OF t d])
  finally have "length text = length (join_sentences (take ?k ?ss) @ ''. '' @ join_sentences (drop ?k ?ss))"
    by simp
  then show ?thesis by simp
qed

section \<open>Properties of compress_text\<close>

lemma small_below_overflow_bound: "(2::rat) ^ 63 < float_overflow_bound"
  by (simp add: float_overflow_bound_def)

lemma word_count_in_range:
  assumes "length text < 2 ^ 63"
  shows "\<not> float_overflow_bound \<le> of_nat (length (split_ws text))"
proof -
  have "length (split_ws text) < 2 ^ 63"
    using assms length_split_ws [of "text"] by linarith
  then have "(of_nat (length (split_ws text)) :: rat) < of_nat (2 ^ 63)"
    by (simp only: of_nat_less_iff)
  then have "(of_nat (length (split_ws text)) :: rat) < 2 ^ 63" by simp
  then show ?thesis using small_below_overflow_bound by linarith
qed

lemma compress_text_returns:
  assumes "mock_mode self" and "text \<noteq> []" and "length text < 2 ^ 63"
    and "\<bar>of_nat (length (split_ws text)) * r\<bar> < float_overflow_bound"
  shows "compress_text self now text (Finite r) =
     Inr (Some \<lparr>compressed_text = compressed_of text,
                original_length = length text,
                compressed_length = length (compressed_of text),
                compression_ratio = of_nat (length (compressed_of text)) / of_nat (length text),
                timestamp = now\<rparr>)"
proof -
  let ?w = "of_nat (length (split_ws text)) :: rat"
  have "\<not> float_overflow_bound \<le> ?w" by (rule word_count_in_range [OF assms(3)])
  moreover have "\<not> float_overflow_bound \<le> ?w * r" using assms(4) by linarith
  moreover have "\<not> ?w * r \<le> - float_overflow_bound" using assms(4) by linarith
  ultimately have "int_times_float (length (split_ws text)) (Finite r) = Inr (Finite (?w * r))"
    by (simp add: int_times_float_def)
  then show ?thesis using assms(1,2)
    by (simp add: compress_text_def compressed_of_def Let_def)
qed

lemma unit_ratio_in_range:
  assumes "length text < 2 ^ 63" and "0 < r" and "r \<le> 1"
  shows "\<bar>of_nat (length (split_ws text)) * r\<bar> < float_overflow_bound"
proof -
  let ?w = "of_nat (length (split_ws text)) :: rat"
  have w: "?w < float_overflow_bound" using word_count_in_range [OF assms(1)] by simp
  have "0 \<le> ?w" by simp
  then have "?w * r \<le> ?w * 1" using assms(3) by (rule mult_left_mono [rotated]) 
  moreover have "0 \<le> ?w * r" using assms(2) by simp
  ultimately show ?thesis using w by simp
qed

lemma compressed_of_shorter:
  assumes "substring_in ''. '' t"
  shows "length (compressed_of t) < length t"
proof -
  have "length (compressed_of t) =
      length (join_sentences (take (max 1 (length (split_sentences t) div 2)) (split_sentences t))) + 1"
    unfolding compressed_of_def by (simp only: length_append) simp
  then show ?thesis using compressed_with_separator [OF assms] by linarith
qed

lemma compressed_of_longer:
  assumes "\<not> substring_in ''. '' t"
  shows "compressed_of t = t @ ''.''"
  unfolding compressed_of_def by (simp only: compressed_no_separator [OF assms])

text \<open>
  Claim C1, as the code has it.  In mock mode, for a non-empty text that a Python string can
  hold (fewer than \<open>2^63\<close> characters) and a ratio in \<open>(0, 1]\<close>, \<^verbatim>\<open>compress_text\<close>
  returns a result whose \<open>compression_ratio\<close> is \<open>compressed_length / original_length\<close>
  and is positive.  The compressed text is at most one character longer than the text, and
  the ratio is at most 1 exactly when the text contains the separator \<^verbatim>\<open>'. '\<close>: a
  text of a single sentence unit comes back whole with a full stop appended.
\<close>

theorem compress_text_ratio_bounds:
  assumes "mock_mode self" and "text \<noteq> []" and "length text < 2 ^ 63"
    and "0 < r" and "r \<le> 1"
  shows "\<exists>res. compress_text self now text (Finite r) = Inr (Some res)
           \<and> original_length res = length text
           \<and> compression_ratio res = of_nat (compressed_length res) / of_nat (original_length res)
           \<and> 0 < compression_ratio res
           \<and> compressed_length res \<le> original_length res + 1
           \<and> (compression_ratio res \<le> 1) = substring_in ''. '' text"
proof -
  let ?c = "compressed_of text"
  let ?res = "\<lparr>compressed_text = ?c, original_length = length text,
               compressed_length = length ?c,
               compression_ratio = of_nat (length ?c) / of_nat (length text),
               timestamp = now\<rparr>"
  have ret: "compress_text self now text (Finite r) = Inr (Some ?res)"
    by (rule compress_text_returns [OF assms(1-3) unit_ratio_in_range [OF assms(3-5)]])
  have pos: "0 < length text" using assms(2) by simp
  have cpos: "0 < length ?c" by (simp add: compressed_of_def)
  have r1: "(0::rat) < of_nat (length ?c) / of_nat (length text)"
    using pos cpos by simp
  have r2: "length ?c \<le> length text + 1"
    using compressed_of_shorter [of "text"] compressed_of_longer [of "text"]
    by (cases "substring_in ''. '' text") auto
  have r3: "((of_nat (length ?c) / of_nat (length text) :: rat) \<le> 1) = substring_in ''. '' text"
  proof (cases "substring_in ''. '' text")
    case True
    then have "length ?c \<le> length text" using compressed_of_shorter [of "text"] by simp
    then have "(of_nat (length ?c) :: rat) \<le> of_nat (length text)" by (simp only: of_nat_le_iff)
    with pos True show ?thesis by (simp add: divide_le_eq)
  next
    case False
    then have "length ?c = Suc (length text)" using compressed_of_longer [of "text"] by simp
    with pos False show ?thesis by (simp add: divide_le_eq)
  qed
  show ?thesis using ret r1 r2 r3 by simp
qed

theorem compress_text_ratio_bounds_witness:
  "mock_mode new_client \<and> ''One. Two. Three'' \<noteq> [] \<and> length ''One. Two. Three'' < 2 ^ 63
     \<and> (0::rat) < 1 / 2 \<and> (1 / 2 :: rat) \<le> 1
     \<and> (\<exists>res. compress_text new_client ''2025-05-28T12:00:00'' ''One. Two. Three'' (Finite (1 / 2)) = Inr (Some res)
           \<and> original_length res = length ''One. Two. Three''
           \<and> compression_ratio res = of_nat (compressed_length res) / of_nat (original_length res)
           \<and> 0 < compression_ratio res
           \<and> compressed_length res \<le> original_length res + 1
           \<and> (compression_ratio res \<le> 1) = substring_in ''. '' ''One. Two. Three'')"
proof -
  have h1: "mock_mode new_client" by (simp add: new_client_def)
  have h2: "''One. Two. Three'' \<noteq> []" by simp
  have h3: "length ''One. Two. Three'' < 2 ^ 63" by simp
  have h4: "(0::rat) < 1 / 2" by simp
  have h5: "(1 / 2 :: rat) \<le> 1" by simp
  show ?thesis
    using h1 h2 h3 h4 h5 compress_text_ratio_bounds [OF h1 h2 h3 h4 h5, of "''2025-05-28T12:00:00''"]
    by blast
qed

text \<open>
  Claim C1 as stated fails: the non-empty text \<^verbatim>\<open>'Hello world'\<close> with ratio 0.5 gives
  the ratio \<open>12/11\<close>, above 1.
\<close>

theorem compress_text_ratio_exceeds_one:
  "compress_text new_client ''2025-05-28T12:00:00'' ''Hello world'' (Finite (1 / 2)) =
     Inr (Some \<lparr>compressed_text = ''Hello world.'', original_length = 11,
                compressed_length = 12, compression_ratio = 12 / 11,
                timestamp = ''2025-05-28T12:00:00''\<rparr>)
   \<and> \<not> (12 / 11 :: rat) \<le> 1"
  by (simp add: compress_text_def new_client_def split_ws_def is_space_def int_times_float_def
      float_overflow_bound_def cons_first_def truncate_rat_def)

text \<open>
  Claim C2, as the code has it.  \<^verbatim>\<open>compress_text\<close> does not check the range of
  \<open>ratio\<close>.  In mock mode, for a non-empty text and a finite ratio outside \<open>(0, 1]\<close>
  whose product with the word count stays in the range of a float, the call raises nothing
  and returns the very result that the in-range ratio 1 gives.
\<close>

theorem compress_text_out_of_range_ratio_accepted:
  assumes "mock_mode self" and "text \<noteq> []" and "length text < 2 ^ 63"
    and "r \<le> 0 \<or> 1 < r"
    and "\<bar>of_nat (length (split_ws text)) * r\<bar> < float_overflow_bound"
  shows "\<exists>res. compress_text self now text (Finite r) = Inr (Some res)
           \<and> compress_text self now text (Finite 1) = Inr (Some res)"
proof -
  have one: "\<bar>of_nat (length (split_ws text)) * 1\<bar> < float_overflow_bound"
    by (rule unit_ratio_in_range [OF assms(3)]) simp_all
  show ?thesis
    using compress_text_returns [OF assms(1-3) assms(5), of now]
      compress_text_returns [OF assms(1-3) one, of now]
    by simp
qed

theorem compress_text_out_of_range_ratio_accepted_witness:
  "mock_mode new_client \<and> ''One. Two. Three. Four'' \<noteq> [] \<and> length ''One. Two. Three. Four'' < 2 ^ 63
     \<and> ((3 / 2 :: rat) \<le> 0 \<or> 1 < (3 / 2 :: rat))
     \<and> \<bar>of_nat (length (split_ws ''One. Two. Three. Four'')) * (3 / 2)\<bar> < float_overflow_bound
     \<and> (\<exists>res. compress_text new_client ''2025-05-28T12:00:00'' ''One. Two. Three. Four'' (Finite (3 / 2)) = Inr (Some res)
           \<and> compress_text new_client ''2025-05-28T12:00:00'' ''One. Two. Three. Four'' (Finite 1) = Inr (Some res))"
proof -
  have h1: "mock_mode new_client" by (simp add: new_client_def)
  have h2: "''One. Two. Three. Four'' \<noteq> []" by simp
  have h3: "length ''One. Two. Three. Four'' < 2 ^ 63" by simp
  have h4: "(3 / 2 :: rat) \<le> 0 \<or> 1 < (3 / 2 :: rat)" by simp
  have h5: "\<bar>of_nat (length (split_ws ''One. Two. Three. Four'')) * (3 / 2)\<bar> < float_overflow_bound"
    by (simp add: split_ws_def is_space_def float_overflow_bound_def)
  show ?thesis
    using h1 h2 h3 h4 h5
      compress_text_out_of_range_ratio_accepted [OF h1 h2 h3 h4 h5, of "''2025-05-28T12:00:00''"]
    by blast
qed

text \<open>
  Claim C2 as stated fails at its own example: with ratio 1.5 the call returns a result.
\<close>

theorem compress_text_ratio_not_validated:
  "compress_text new_client ''2025-05-28T12:00:00'' ''One. Two. Three. Four'' (Finite (3 / 2)) =
     Inr (Some \<lparr>compressed_text = ''One. Two.'', original_length = 21,
                compressed_length = 9, compression_ratio = 3 / 7,
                timestamp = ''2025-05-28T12:00:00''\<rparr>)"
  by (simp add: compress_text_def new_client_def split_ws_def is_space_def int_times_float_def
      float_overflow_bound_def cons_first_def truncate_rat_def)

text \<open>
  Claim C3 asks for a result with ratio 1.0 on the empty string.  The code has no such
  case: with ratio 0.5 the call on \<^verbatim>\<open>''\<close> ends in \<^verbatim>\<open>ZeroDivisionError\<close>, raised by
  \<^verbatim>\<open>len(compressed) / len(text)\<close>.
\<close>

theorem compress_text_empty_raises:
  "compress_text new_client ''2025-05-28T12:00:00'' [] (Finite (1 / 2)) = Inl ZeroDivisionError"
  by (simp add: compress_text_def new_client_def split_ws_def int_times_float_def
      float_overflow_bound_def truncate_rat_def)




section \<open>Properties of get_compression_suggestions\<close>

lemma index_content_long:
  assumes "500 < length (get_content msg)"
  shows "index_content msg = Inr (get_content msg)"
  using assms by (cases "msg ''content''") (simp_all add: get_content_def index_content_def)

lemma suggestions_loop_eq:
  "suggestions_loop acc ims = Inr (acc @ map suggestion_for (filter long_entry ims))"
proof (induction ims arbitrary: acc)
  case Nil
  show ?case by simp
next
  case (Cons p ims)
  obtain i msg where p: "p = (i, msg)" by (cases p)
  show ?case
  proof (cases "500 < length (get_content msg)")
    case True
    then show ?thesis
      using Cons.IH index_content_long [OF True]
      by (simp add: p long_entry_def suggestion_for_def)
  next
    case False
    then show ?thesis using Cons.IH by (simp add: p long_entry_def)
  qed
qed

lemma get_compression_suggestions_returns:
  assumes "mock_mode self"
  shows "get_compression_suggestions self now conversation threshold =
     Inr (Some \<lparr>total_tokens = truncate_rat (py_sum (map message_tokens conversation)),
                suggestions = found_in conversation,
                estimated_savings = py_sum (map potential_savings (found_in conversation)),
                gs_timestamp = now\<rparr>)"
  using assms by (simp add: get_compression_suggestions_def suggestions_loop_eq found_in_def)

lemma enumerated_entry:
  "(p \<in> set (enumerate_from_zero (drop_last_ten xs))) =
     (fst p + 10 < length xs \<and> snd p = xs ! fst p)"
proof -
  obtain i x where p: "p = (i, x)" by (cases p)
  have "((i, x) \<in> set (zip [0..<length (take (length xs - 10) xs)] (take (length xs - 10) xs))) =
        (i < length xs - 10 \<and> x = xs ! i)"
    by (auto simp: in_set_zip intro!: exI [of _ i])
  then show ?thesis by (auto simp: p enumerate_from_zero_def drop_last_ten_def)
qed

lemma found_in_index:
  "(\<exists>s\<in>set (found_in xs). message_index s = i) =
     (i + 10 < length xs \<and> 500 < length (get_content (xs ! i)))"
proof
  assume "\<exists>s\<in>set (found_in xs). message_index s = i"
  then obtain p where "p \<in> set (enumerate_from_zero (drop_last_ten xs))" "long_entry p" "fst p = i"
    by (auto simp: found_in_def suggestion_for_def)
  then show "i + 10 < length xs \<and> 500 < length (get_content (xs ! i))"
    by (auto simp: enumerated_entry long_entry_def)
next
  assume a: "i + 10 < length xs \<and> 500 < length (get_content (xs ! i))"
  let ?p = "(i, xs ! i)"
  have "?p \<in> set (enumerate_from_zero (drop_last_ten xs))" using a by (simp add: enumerated_entry)
  moreover have "long_entry ?p" using a by (simp add: long_entry_def)
  ultimately have "suggestion_for ?p \<in> set (found_in xs)" by (simp add: found_in_def)
  moreover have "message_index (suggestion_for ?p) = i" by (simp add: suggestion_for_def)
  ultimately show "\<exists>s\<in>set (found_in xs). message_index s = i" by blast
qed

lemma found_in_short: "length xs \<le> 10 \<Longrightarrow> found_in xs = []"
  by (simp add: found_in_def enumerate_from_zero_def drop_last_ten_def)

text \<open>Evaluating the rounding on numerals.\<close>

lemma floor_numeral_quotient:
  "\<lfloor>numeral a / numeral b :: rat\<rfloor> = numeral a div numeral b"
  using floor_divide_of_int_eq [of "numeral a" "numeral b", where ?'a = rat] by simp

lemmas float_eval = round_double_def binade_def pow2_def round_half_even_def bit_length.simps
  floor_numeral_quotient Let_def

lemma round_double_zero: "round_double 0 = 0"
  by (simp add: round_double_def)

lemma py_sum_Nil: "py_sum [] = 0"
  by (simp add: py_sum_def)

lemma replicate_ten: "replicate 10 x = [x, x, x, x, x, x, x, x, x, x]"
  by (simp add: numeral_eq_Suc)

lemma one_word_tokens:
  "round_double (round_double 1 * round_double (13 / 10)) = 5854679515581645 / 4503599627370496"
  by (simp add: float_eval)


lemma eleven_one_word_messages:
  "py_sum (5854679515581645 / 4503599627370496 # replicate 10 (5854679515581645 / 4503599627370496)) =
     8050184333924763 / 562949953421312"
  by (simp add: py_sum_def replicate_ten float_eval)



text \<open>A run of one non-whitespace character is a single word.\<close>

lemma split_ws_from_replicate:
  "\<not> is_space c \<Longrightarrow>
   split_ws_from cur (replicate n c) = (if cur = [] \<and> n = 0 then [] else [rev cur @ replicate n c])"
proof (induction n arbitrary: cur)
  case 0
  show ?case by simp
next
  case (Suc n)
  show ?case using Suc.prems Suc.IH [OF Suc.prems, of "c # cur"]
    by (simp add: replicate_app_Cons_same)
qed

lemma split_ws_replicate:
  "\<not> is_space c \<Longrightarrow> 0 < n \<Longrightarrow> split_ws (replicate n c) = [replicate n c]"
  by (simp add: split_ws_def split_ws_from_replicate)

lemmas eval_defs = get_compression_suggestions_def new_client_def drop_last_ten_def
  enumerate_from_zero_def message_tokens_def get_content_def
  index_content_def Let_def truncate_rat_def mk_message_def

text \<open>A conversation of eleven messages whose first message has 501 characters.\<close>

lemma long_conversation_result:
  "get_compression_suggestions new_client ''2025-05-28T12:00:00''
     (mk_message ''user'' (replicate 501 CHR ''x'') # replicate 10 (mk_message ''user'' ''ok'')) (Finite (7 / 10)) =
     Inr (Some \<lparr>total_tokens = 14,
                suggestions = [\<lparr>message_index = 0, reason = ''Long message'',
                                 potential_savings = 501 / 2\<rparr>],
                estimated_savings = 501 / 2,
                gs_timestamp = ''2025-05-28T12:00:00''\<rparr>)"
proof -
  have w1: "split_ws (replicate 501 CHR ''x'') = [replicate 501 CHR ''x'']"
    by (simp add: split_ws_replicate is_space_def)
  have w2: "split_ws ''ok'' = [''ok'']"
    by (simp add: split_ws_def is_space_def)
  have t1: "message_tokens (mk_message ''user'' (replicate 501 CHR ''x'')) =
      5854679515581645 / 4503599627370496"
    by (simp add: message_tokens_def get_content_def mk_message_def w1 one_word_tokens)
  have t2: "message_tokens (mk_message ''user'' ''ok'') = 5854679515581645 / 4503599627370496"
    by (simp add: message_tokens_def get_content_def mk_message_def w2 one_word_tokens)
  have total: "truncate_rat (py_sum (map message_tokens
      (mk_message ''user'' (replicate 501 CHR ''x'') # replicate 10 (mk_message ''user'' ''ok'')))) = 14"
    by (simp add: t1 t2 eleven_one_word_messages truncate_rat_def floor_numeral_quotient)
  have sv: "round_double (round_double 501 * (1 / 2)) = 501 / 2"
    by (simp add: float_eval)
  have found: "found_in
      (mk_message ''user'' (replicate 501 CHR ''x'') # replicate 10 (mk_message ''user'' ''ok'')) =
      [\<lparr>message_index = 0, reason = ''Long message'', potential_savings = 501 / 2\<rparr>]"
    using sv
    by (simp add: found_in_def enumerate_from_zero_def drop_last_ten_def long_entry_def
        suggestion_for_def get_content_def mk_message_def)
  have es: "py_sum [501 / 2] = 501 / 2"
    by (simp add: py_sum_def float_eval)
  show ?thesis
    unfolding get_compression_suggestions_returns [OF new_client_mock_mode] total found
    by (simp add: es)
qed

text \<open>
  Claim C5.  In mock mode \<^verbatim>\<open>get_compression_suggestions\<close> returns for every conversation
  and every threshold, and every suggestion it returns has a \<open>message_index\<close> that lies
  before the last ten messages: \<open>message_index + 10 < len(conversation)\<close>.
\<close>

theorem suggestions_outside_protected_window:
  assumes "mock_mode self"
  shows "\<exists>res. get_compression_suggestions self now conversation threshold = Inr (Some res)
           \<and> (\<forall>s\<in>set (suggestions res). message_index s + 10 < length conversation)"
proof -
  have "message_index s + 10 < length conversation" if "s \<in> set (found_in conversation)" for s
    using that found_in_index [of conversation "message_index s"] by blast
  then show ?thesis using get_compression_suggestions_returns [OF assms] by simp
qed

theorem suggestions_outside_protected_window_witness:
  "mock_mode new_client
   \<and> (\<exists>res. get_compression_suggestions new_client ''2025-05-28T12:00:00''
               (mk_message ''user'' (replicate 501 CHR ''x'') # replicate 10 (mk_message ''user'' ''ok''))
               (Finite (7 / 10)) = Inr (Some res)
            \<and> suggestions res \<noteq> []
            \<and> (\<forall>s\<in>set (suggestions res). message_index s + 10
                  < length (mk_message ''user'' (replicate 501 CHR ''x'') # replicate 10 (mk_message ''user'' ''ok''))))"
proof -
  have h1: "mock_mode new_client" by (simp add: new_client_def)
  show ?thesis
    using h1 long_conversation_result
      suggestions_outside_protected_window [OF h1, of "''2025-05-28T12:00:00''"
        "mk_message ''user'' (replicate 501 CHR ''x'') # replicate 10 (mk_message ''user'' ''ok'')" "Finite (7 / 10)"]
    by auto
qed

text \<open>
  Claim C7, as the code has it.  The threshold is never read.  In mock mode, for every
  conversation and every threshold, the message at index \<open>i\<close> is suggested exactly when it
  lies before the last ten messages and its content is longer than 500 characters, and the
  call returns the same result for every other threshold: a higher threshold yields equally
  many suggestions.
\<close>

theorem suggestions_by_fixed_cutoff:
  assumes "mock_mode self"
  shows "\<exists>res. get_compression_suggestions self now conversation threshold = Inr (Some res)
           \<and> (\<forall>i. (\<exists>s\<in>set (suggestions res). message_index s = i) =
                    (i + 10 < length conversation \<and> 500 < length (get_content (conversation ! i))))
           \<and> (\<forall>other. get_compression_suggestions self now conversation other = Inr (Some res))"
  using get_compression_suggestions_returns [OF assms] found_in_index by simp

theorem suggestions_by_fixed_cutoff_witness:
  "mock_mode new_client
   \<and> (\<exists>res. get_compression_suggestions new_client ''2025-05-28T12:00:00''
               (mk_message ''user'' (replicate 501 CHR ''x'') # replicate 10 (mk_message ''user'' ''ok''))
               (Finite (7 / 10)) = Inr (Some res)
            \<and> (\<exists>s\<in>set (suggestions res). message_index s = 0)
            \<and> (\<forall>i. (\<exists>s\<in>set (suggestions res). message_index s = i) =
                  (i + 10 < length (mk_message ''user'' (replicate 501 CHR ''x'') # replicate 10 (mk_message ''user'' ''ok''))
                   \<and> 500 < length (get_content
                        ((mk_message ''user'' (replicate 501 CHR ''x'') # replicate 10 (mk_message ''user'' ''ok'')) ! i))))
            \<and> (\<forall>other. get_compression_suggestions new_client ''2025-05-28T12:00:00''
                  (mk_message ''user'' (replicate 501 CHR ''x'') # replicate 10 (mk_message ''user'' ''ok'')) other
                  = Inr (Some res)))"
proof -
  have h1: "mock_mode new_client" by (simp add: new_client_def)
  show ?thesis
    using h1 long_conversation_result
      suggestions_by_fixed_cutoff [OF h1, of "''2025-05-28T12:00:00''"
        "mk_message ''user'' (replicate 501 CHR ''x'') # replicate 10 (mk_message ''user'' ''ok'')" "Finite (7 / 10)"]
    by auto
qed

text \<open>
  Claim C7 as stated fails.  With threshold 0.5 the cutoff of the claim is 250 characters.
  In a conversation of eleven messages the first one, of 300 characters, lies outside the
  protected window and exceeds that cutoff, yet nothing is suggested.
\<close>

theorem suggestions_ignore_threshold:
  "get_compression_suggestions new_client ''2025-05-28T12:00:00''
     (mk_message ''user'' (replicate 300 CHR ''x'') # replicate 10 (mk_message ''user'' ''ok'')) (Finite (1 / 2)) =
     Inr (Some \<lparr>total_tokens = 14, suggestions = [], estimated_savings = 0,
                gs_timestamp = ''2025-05-28T12:00:00''\<rparr>)
   \<and> 0 + 10 < length (mk_message ''user'' (replicate 300 CHR ''x'') # replicate 10 (mk_message ''user'' ''ok''))
   \<and> spec_size_cutoff (1 / 2)
       < of_nat (length (get_content
           ((mk_message ''user'' (replicate 300 CHR ''x'') # replicate 10 (mk_message ''user'' ''ok'')) ! 0)))"
proof -
  have w1: "split_ws (replicate 300 CHR ''x'') = [replicate 300 CHR ''x'']"
    by (simp add: split_ws_replicate is_space_def)
  have w2: "split_ws ''ok'' = [''ok'']"
    by (simp add: split_ws_def is_space_def)
  have t1: "message_tokens (mk_message ''user'' (replicate 300 CHR ''x'')) =
      5854679515581645 / 4503599627370496"
    by (simp add: message_tokens_def get_content_def mk_message_def w1 one_word_tokens)
  have t2: "message_tokens (mk_message ''user'' ''ok'') = 5854679515581645 / 4503599627370496"
    by (simp add: message_tokens_def get_content_def mk_message_def w2 one_word_tokens)
  have total: "truncate_rat (py_sum (map message_tokens
      (mk_message ''user'' (replicate 300 CHR ''x'') # replicate 10 (mk_message ''user'' ''ok'')))) = 14"
    by (simp add: t1 t2 eleven_one_word_messages truncate_rat_def floor_numeral_quotient)
  have found: "found_in
      (mk_message ''user'' (replicate 300 CHR ''x'') # replicate 10 (mk_message ''user'' ''ok'')) = []"
    by (simp add: found_in_def enumerate_from_zero_def drop_last_ten_def long_entry_def
        get_content_def mk_message_def)
  have cutoff: "spec_size_cutoff (1 / 2)
       < of_nat (length (get_content
           ((mk_message ''user'' (replicate 300 CHR ''x'') # replicate 10 (mk_message ''user'' ''ok'')) ! 0)))"
    by (simp add: spec_size_cutoff_def get_content_def mk_message_def)
  show ?thesis
    unfolding get_compression_suggestions_returns [OF new_client_mock_mode] total found
    using cutoff by (simp add: py_sum_Nil)
qed



text \<open>
  Claim C8 as stated fails in its last part.  For the two messages below the Token Estimator
  gives 7 and 11 tokens, 18 in sum, while the \<open>total_tokens\<close> returned is 19: the code
  adds 7.8 and 11.7 and truncates 19.5.
\<close>

theorem total_tokens_not_estimator_sum:
  "get_compression_suggestions new_client ''2025-05-28T12:00:00''
     [mk_message ''user'' ''Let us implement the memory system'',
      mk_message ''assistant'' ''I will help you build it step by step''] (Finite (7 / 10)) =
     Inr (Some \<lparr>total_tokens = 19, suggestions = [], estimated_savings = 0,
                gs_timestamp = ''2025-05-28T12:00:00''\<rparr>)
   \<and> (\<Sum>msg\<leftarrow>[mk_message ''user'' ''Let us implement the memory system'',
                mk_message ''assistant'' ''I will help you build it step by step''].
         spec_token_estimate (get_content msg)) = 18"
proof -
  have w1: "length (split_ws ''Let us implement the memory system'') = 6"
    by (simp add: split_ws_def is_space_def)
  have w2: "length (split_ws ''I will help you build it step by step'') = 9"
    by (simp add: split_ws_def is_space_def)
  have t1: "message_tokens (mk_message ''user'' ''Let us implement the memory system'') =
      2195504818343117 / 281474976710656"
    by (simp add: message_tokens_def get_content_def mk_message_def w1) (simp add: float_eval)
  have t2: "message_tokens (mk_message ''assistant'' ''I will help you build it step by step'') =
      6586514455029351 / 562949953421312"
    by (simp add: message_tokens_def get_content_def mk_message_def w2) (simp add: float_eval)
  have total: "truncate_rat (py_sum (map message_tokens
      [mk_message ''user'' ''Let us implement the memory system'',
       mk_message ''assistant'' ''I will help you build it step by step''])) = 19"
    by (simp add: t1 t2 py_sum_def) (simp add: float_eval truncate_rat_def)
  have found: "found_in
      [mk_message ''user'' ''Let us implement the memory system'',
       mk_message ''assistant'' ''I will help you build it step by step''] = []"
    by (simp add: found_in_short)
  have spec: "(\<Sum>msg\<leftarrow>[mk_message ''user'' ''Let us implement the memory system'',
                mk_message ''assistant'' ''I will help you build it step by step''].
         spec_token_estimate (get_content msg)) = 18"
    by (simp add: spec_token_estimate_def get_content_def mk_message_def w1 w2 truncate_rat_def
        floor_numeral_quotient)
  show ?thesis
    unfolding get_compression_suggestions_returns [OF new_client_mock_mode] total found
    using spec by (simp add: py_sum_Nil)
qed

section \<open>Messages without content\<close>

lemma get_content_missing: "msg ''content'' = None \<Longrightarrow> get_content msg = []"
  by (simp add: get_content_def)

lemma get_content_set: "get_content (msg(''content'' \<mapsto> c)) = c"
  by (simp add: get_content_def)

lemma same_contents_found:
  assumes "map get_content xs = map get_content ys"
  shows "map suggestion_for (filter long_entry (zip ns xs)) =
         map suggestion_for (filter long_entry (zip ns ys))"
  using assms
proof (induction xs arbitrary: ys ns)
  case Nil
  then show ?case by simp
next
  case (Cons x xs)
  then obtain y ys' where ys: "ys = y # ys'" "get_content x = get_content y"
      "map get_content xs = map get_content ys'"
    by (cases ys) auto
  show ?case
  proof (cases ns)
    case Nil
    then show ?thesis by simp
  next
    case (Cons n ns')
    then show ?thesis
      using Cons.IH [OF ys(3), of ns'] ys(1,2)
      by (simp add: suggestion_for_def long_entry_def)
  qed
qed

lemma same_contents_suggestions:
  assumes "map get_content xs = map get_content ys"
  shows "get_compression_suggestions self now xs threshold =
         get_compression_suggestions self now ys threshold"
proof -
  have len: "length xs = length ys" using assms by (rule map_eq_imp_length_eq)
  define estimate where
    "estimate = (\<lambda>c. round_double (round_double (of_nat (length (split_ws c))) * round_double (13 / 10)))"
  have "map message_tokens xs = map estimate (map get_content xs)"
    by (simp add: message_tokens_def estimate_def)
  also have "\<dots> = map estimate (map get_content ys)"
    by (simp only: assms)
  also have "\<dots> = map message_tokens ys"
    by (simp add: message_tokens_def estimate_def)
  finally have tok: "map message_tokens xs = map message_tokens ys" .
  have "map get_content (drop_last_ten xs) = map get_content (drop_last_ten ys)"
    using assms len by (simp add: drop_last_ten_def take_map [symmetric])
  then have "map suggestion_for (filter long_entry (zip [0..<length (drop_last_ten xs)] (drop_last_ten xs))) =
      map suggestion_for (filter long_entry (zip [0..<length (drop_last_ten xs)] (drop_last_ten ys)))"
    by (rule same_contents_found)
  moreover have "length (drop_last_ten xs) = length (drop_last_ten ys)"
    using len by (simp add: drop_last_ten_def)
  ultimately have "found_in xs = found_in ys"
    by (simp add: found_in_def enumerate_from_zero_def)
  then show ?thesis
    using tok by (simp add: get_compression_suggestions_def suggestions_loop_eq found_in_def)
qed

lemma same_contents_extract:
  assumes "map get_content xs = map get_content ys"
  shows "extract_loop acc xs = extract_loop acc ys"
  using assms
proof (induction xs arbitrary: ys acc)
  case Nil
  then show ?case by simp
next
  case (Cons x xs)
  then obtain y ys' where ys: "ys = y # ys'" "get_content x = get_content y"
      "map get_content xs = map get_content ys'"
    by (cases ys) auto
  obtain kps ds where acc: "acc = (kps, ds)" by (cases acc)
  show ?case
    unfolding ys(1) acc extract_loop.simps ys(2) Let_def
    by (rule Cons.IH [OF ys(3)])
qed

lemma same_contents_conversation:
  assumes "map get_content xs = map get_content ys"
  shows "compress_conversation self now xs max_tokens = compress_conversation self now ys max_tokens"
proof -
  have "length xs = length ys" using assms by (rule map_eq_imp_length_eq)
  then show ?thesis
    using same_contents_extract [OF assms, of "([], [])"]
    by (simp add: compress_conversation_def)
qed

lemma compress_conversation_returns:
  assumes "mock_mode self"
  shows "compress_conversation self now messages max_tokens =
     Some \<lparr>summary = ''Conversation with '' @ str_of_nat (length messages) @ '' messages'',
           key_points = take 5 (fst (extract_loop ([], []) messages)),
           decisions = take 3 (snd (extract_loop ([], []) messages)),
           message_count = length messages,
           cc_compression_ratio = 1 / 10,
           cc_timestamp = now\<rparr>"
  using assms by (simp add: compress_conversation_def split: prod.splits)

lemma extract_loop_missing:
  assumes "msg ''content'' = None"
  shows "extract_loop (kps, ds) [msg] = (kps, ds)"
  using assms get_content_missing [of msg] by (simp add: str_lower_def)

text \<open>
  Claim C9.  In mock mode, let the message at index \<open>i\<close> of a conversation lack the field
  \<^verbatim>\<open>content\<close>.  Then \<^verbatim>\<open>get_compression_suggestions\<close> and
  \<^verbatim>\<open>compress_conversation\<close> both return (neither raises), and each returns what it
  returns when that message carries the empty content instead.  The message counts for 0
  tokens, no suggestion has its index, and the extraction loop takes no key point and no
  decision from it.
\<close>

theorem missing_content_is_empty_content:
  assumes "mock_mode self" and "i < length messages" and "(messages ! i) ''content'' = None"
  shows "(\<exists>res. get_compression_suggestions self now messages threshold = Inr (Some res)
              \<and> (\<forall>s\<in>set (suggestions res). message_index s \<noteq> i))
       \<and> (\<exists>res. compress_conversation self now messages max_tokens = Some res)
       \<and> get_compression_suggestions self now messages threshold =
           get_compression_suggestions self now
             (messages[i := (messages ! i)(''content'' \<mapsto> [])]) threshold
       \<and> compress_conversation self now messages max_tokens =
           compress_conversation self now
             (messages[i := (messages ! i)(''content'' \<mapsto> [])]) max_tokens
       \<and> message_tokens (messages ! i) = 0
       \<and> extract_loop (kps, ds) [messages ! i] = (kps, ds)"
proof -
  have empty: "get_content (messages ! i) = []" using assms(3) by (simp add: get_content_def)
  have "map get_content (messages[i := (messages ! i)(''content'' \<mapsto> [])]) =
        (map get_content messages)[i := []]"
    by (simp add: map_update get_content_set)
  also have "\<dots> = map get_content messages"
    using assms(2) empty by (metis list_update_id map_update)
  finally have same: "map get_content messages =
      map get_content (messages[i := (messages ! i)(''content'' \<mapsto> [])])" by simp
  have "message_index s \<noteq> i" if "s \<in> set (found_in messages)" for s
    using that found_in_index [of messages "message_index s"] empty by auto
  then have a: "\<exists>res. get_compression_suggestions self now messages threshold = Inr (Some res)
              \<and> (\<forall>s\<in>set (suggestions res). message_index s \<noteq> i)"
    using get_compression_suggestions_returns [OF assms(1)] by simp
  have b: "\<exists>res. compress_conversation self now messages max_tokens = Some res"
    using compress_conversation_returns [OF assms(1)] by simp
  have c: "message_tokens (messages ! i) = 0"
    by (simp add: message_tokens_def empty split_ws_def round_double_zero)
  show ?thesis
    using a b c same_contents_suggestions [OF same] same_contents_conversation [OF same]
      assms(3) extract_loop_missing [of "messages ! i" kps ds]
    by simp
qed

theorem missing_content_is_empty_content_witness:
  "mock_mode new_client
   \<and> 1 < length [mk_message ''user'' ''Let us implement the memory system'', [''role'' \<mapsto> ''tool'']]
   \<and> ([mk_message ''user'' ''Let us implement the memory system'', [''role'' \<mapsto> ''tool'']] ! 1)
        ''content'' = None
   \<and> (\<exists>res. get_compression_suggestions new_client ''2025-05-28T12:00:00''
               [mk_message ''user'' ''Let us implement the memory system'', [''role'' \<mapsto> ''tool'']]
               (Finite (7 / 10)) = Inr (Some res)
            \<and> (\<forall>s\<in>set (suggestions res). message_index s \<noteq> 1))
   \<and> (\<exists>res. compress_conversation new_client ''2025-05-28T12:00:00''
               [mk_message ''user'' ''Let us implement the memory system'', [''role'' \<mapsto> ''tool'']]
               1000 = Some res)
   \<and> get_compression_suggestions new_client ''2025-05-28T12:00:00''
        [mk_message ''user'' ''Let us implement the memory system'', [''role'' \<mapsto> ''tool'']]
        (Finite (7 / 10)) =
      get_compression_suggestions new_client ''2025-05-28T12:00:00''
        [mk_message ''user'' ''Let us implement the memory system'', [''role'' \<mapsto> ''tool'', ''content'' \<mapsto> []]]
        (Finite (7 / 10))
   \<and> compress_conversation new_client ''2025-05-28T12:00:00''
        [mk_message ''user'' ''Let us implement the memory system'', [''role'' \<mapsto> ''tool'']] 1000 =
      compress_conversation new_client ''2025-05-28T12:00:00''
        [mk_message ''user'' ''Let us implement the memory system'', [''role'' \<mapsto> ''tool'', ''content'' \<mapsto> []]]
        1000
   \<and> message_tokens [''role'' \<mapsto> ''tool''] = 0
   \<and> extract_loop ([], []) [[''role'' \<mapsto> ''tool'']] = ([], [])"
proof -
  have h1: "mock_mode new_client" by (simp add: new_client_def)
  have h2: "1 < length [mk_message ''user'' ''Let us implement the memory system'', [''role'' \<mapsto> ''tool'']]"
    by simp
  have h3: "([mk_message ''user'' ''Let us implement the memory system'', [''role'' \<mapsto> ''tool'']] ! 1)
        ''content'' = None" by simp
  have e1: "[mk_message ''user'' ''Let us implement the memory system'', [''role'' \<mapsto> ''tool'']]
      [1 := [''role'' \<mapsto> ''tool'', ''content'' \<mapsto> []]] =
      [mk_message ''user'' ''Let us implement the memory system'', [''role'' \<mapsto> ''tool'', ''content'' \<mapsto> []]]"
    by simp
  have e2: "[mk_message ''user'' ''Let us implement the memory system'', [''role'' \<mapsto> ''tool'']] ! 1 =
      [''role'' \<mapsto> ''tool'']"
    by simp
  show ?thesis
    using h1 h2 h3
      missing_content_is_empty_content [OF h1 h2 h3, of "''2025-05-28T12:00:00''" "Finite (7 / 10)"
        1000 "[]" "[]"]
    unfolding e1 e2 by blast
qed

section \<open>Properties of compress_conversation\<close>

text \<open>Seven messages that each hold a decision and a key point: both caps apply.\<close>

lemma capped_conversation_result:
  "compress_conversation new_client ''2025-05-28T12:00:00''
     (replicate 7 (mk_message ''user'' ''We decided to build it'')) 1000 =
     Some \<lparr>summary = ''Conversation with 7 messages'',
           key_points = replicate 5 ''We decided to build it...'',
           decisions = replicate 3 ''We decided to build it...'',
           message_count = 7, cc_compression_ratio = 1 / 10,
           cc_timestamp = ''2025-05-28T12:00:00''\<rparr>"
  by code_simp

text \<open>
  Claim C6.  In mock mode, for every list of messages, of any length, and every
  \<open>max_tokens\<close>, \<^verbatim>\<open>compress_conversation\<close> returns a summary with at most 5 key points
  and at most 3 decisions.
\<close>

theorem conversation_summary_caps:
  assumes "mock_mode self"
  shows "\<exists>res. compress_conversation self now messages max_tokens = Some res
           \<and> length (key_points res) \<le> 5 \<and> length (decisions res) \<le> 3"
  using compress_conversation_returns [OF assms] by simp

theorem conversation_summary_caps_witness:
  "mock_mode new_client
   \<and> (\<exists>res. compress_conversation new_client ''2025-05-28T12:00:00''
               (replicate 7 (mk_message ''user'' ''We decided to build it'')) 1000 = Some res
            \<and> length (key_points res) = 5 \<and> length (decisions res) = 3
            \<and> length (key_points res) \<le> 5 \<and> length (decisions res) \<le> 3)"
proof -
  have h1: "mock_mode new_client" by (simp add: new_client_def)
  show ?thesis
    using h1 capped_conversation_result
      conversation_summary_caps [OF h1, of "''2025-05-28T12:00:00''"
        "replicate 7 (mk_message ''user'' ''We decided to build it'')" 1000]
    by auto
qed

text \<open>
  Claim C4, as the code has it.  In mock mode, for every list of messages and every
  \<open>max_tokens\<close>, the \<open>compression_ratio\<close> that \<^verbatim>\<open>compress_conversation\<close> returns is
  the constant 0.1; no token estimate enters it.
\<close>

theorem conversation_ratio_constant:
  assumes "mock_mode self"
  shows "\<exists>res. compress_conversation self now messages max_tokens = Some res
           \<and> cc_compression_ratio res = 1 / 10"
  using compress_conversation_returns [OF assms] by simp

theorem conversation_ratio_constant_witness:
  "mock_mode new_client
   \<and> (\<exists>res. compress_conversation new_client ''2025-05-28T12:00:00''
               [mk_message ''user'' ''Let us implement the memory system'',
                mk_message ''assistant'' ''I will help you build it step by step''] 1000 = Some res
            \<and> cc_compression_ratio res = 1 / 10)"
proof -
  have h1: "mock_mode new_client" by (simp add: new_client_def)
  show ?thesis
    using h1 conversation_ratio_constant [OF h1, of "''2025-05-28T12:00:00''"
        "[mk_message ''user'' ''Let us implement the memory system'',
          mk_message ''assistant'' ''I will help you build it step by step'']" 1000]
    by simp
qed

text \<open>
  Claim C4 as stated fails.  For the two messages below the summary is estimated at 23 tokens
  and the messages at 18, a ratio of \<open>23/18\<close>, while the returned ratio is 0.1.
\<close>

theorem conversation_ratio_not_estimated:
  "(case compress_conversation new_client ''2025-05-28T12:00:00''
          [mk_message ''user'' ''Let us implement the memory system'',
           mk_message ''assistant'' ''I will help you build it step by step''] 1000 of
      None \<Rightarrow> False
    | Some res \<Rightarrow>
        cc_compression_ratio res = 1 / 10
        \<and> spec_achieved_ratio res
            [mk_message ''user'' ''Let us implement the memory system'',
             mk_message ''assistant'' ''I will help you build it step by step''] = 23 / 18)"
  by code_simp

end
